theory Spec2Isabelle
  imports Complex_Main "HOL-Library.Multiset"
begin

section \<open>Configuration constants (src/config.py)\<close>

definition RATE_LIMIT_BUFFER :: int where
  "RATE_LIMIT_BUFFER = 100"

definition RETRY_ATTEMPTS :: nat where
  "RETRY_ATTEMPTS = 3"

definition RETRY_DELAY :: int where
  "RETRY_DELAY = 2"

section \<open>Exceptions, effects and the observable world\<close>

text \<open>
  The exceptions the fetcher distinguishes. \<open>RateLimitExceededException\<close> is a subclass of
  \<open>GithubException\<close> in PyGithub; \<open>GithubException\<close> carries its HTTP status; every other
  exception class is \<open>OtherException\<close> with its message.
\<close>

datatype exn =
    RateLimitExceededException
  | GithubException int
  | JSONDecodeError
  | TypeError
  | ValueError
  | OverflowError
  | KeyError string
  | OtherException string

fun is_GithubException :: "exn \<Rightarrow> bool" where
  "is_GithubException RateLimitExceededException = True"
| "is_GithubException (GithubException status) = True"
| "is_GithubException _ = False"

text \<open>
  Effects are recorded in a trace: an invocation of the operation wrapped by the retry
  executor, a call of \<open>github.get_rate_limit()\<close>, a \<open>time.sleep\<close> with its duration in
  seconds (never negative in the source: \<open>RETRY_DELAY\<close> is 2 and the rate limiter sleeps
  only for a positive wait), and a file written by \<open>save_json\<close>.
\<close>

datatype path = CACHE_FILE | CACHE_METADATA_FILE

datatype event = Call | RateLimitProbe | Sleep rat | Write path

record world =
  calls :: nat
  probes :: nat
  trace :: "event list"

definition emit :: "event \<Rightarrow> world \<Rightarrow> world" where
  "emit e w = w\<lparr>trace := trace w @ [e]\<rparr>"

definition sleep :: "rat \<Rightarrow> world \<Rightarrow> world" where
  "sleep d w = emit (Sleep d) w"

fun sleeps :: "event list \<Rightarrow> rat list" where
  "sleeps [] = []"
| "sleeps (Sleep d # es) = d # sleeps es"
| "sleeps (_ # es) = sleeps es"

fun writes :: "event list \<Rightarrow> path list" where
  "writes [] = []"
| "writes (Write p # es) = p # writes es"
| "writes (_ # es) = writes es"

section \<open>Rate limiter (GitHubDataFetcher._check_rate_limit)\<close>

text \<open>
  The remote quota is a parameter: \<open>quota i\<close> is what the \<open>i\<close>-th call of
  \<open>get_rate_limit()\<close> yields, either an exception or the pair of \<open>core.remaining\<close> and of
  \<open>(core.reset - datetime.now()).total_seconds()\<close>.
\<close>

type_synonym quota = "nat \<Rightarrow> exn + (int \<times> rat)"

definition check_rate_limit :: "quota \<Rightarrow> world \<Rightarrow> (exn + unit) \<times> world" where
  "check_rate_limit quota w =
     (let w1 = emit RateLimitProbe (w\<lparr>probes := Suc (probes w)\<rparr>) in
      case quota (probes w) of
        Inl e \<Rightarrow> (Inl e, w1)
      | Inr (remaining, wait_time) \<Rightarrow>
          if remaining < RATE_LIMIT_BUFFER then
            (if wait_time > 0 then (Inr (), sleep (wait_time + 10) w1) else (Inr (), w1))
          else (Inr (), w1))"

section \<open>Retry executor (GitHubDataFetcher._retry_on_failure)\<close>

text \<open>
  The wrapped operation is a parameter: \<open>func i\<close> is the outcome of the invocation made
  when \<open>i\<close> invocations have been made before it (\<open>Inl\<close> an exception raised, \<open>Inr\<close> the
  value returned). The loop runs over the attempts of \<open>range(N)\<close>; \<open>N\<close> and \<open>D\<close> stand
  for \<open>RETRY_ATTEMPTS\<close> and \<open>RETRY_DELAY\<close>.
\<close>

fun retry_loop ::
  "nat \<Rightarrow> int \<Rightarrow> quota \<Rightarrow> (nat \<Rightarrow> exn + 'a) \<Rightarrow> nat list \<Rightarrow> world \<Rightarrow> (exn + 'a) \<times> world"
where
  "retry_loop N D quota func [] w = (Inl (OtherException ''All retry attempts failed''), w)"
| "retry_loop N D quota func (attempt # rest) w =
     (let w1 = emit Call (w\<lparr>calls := Suc (calls w)\<rparr>) in
      case func (calls w) of
        Inr v \<Rightarrow> (Inr v, w1)
      | Inl e \<Rightarrow>
          if e = RateLimitExceededException then
            (case check_rate_limit quota w1 of
               (Inl e', w2) \<Rightarrow> (Inl e', w2)
             | (Inr _, w2) \<Rightarrow> retry_loop N D quota func rest w2)
          else if is_GithubException e then
            (if e = GithubException 403 then
               retry_loop N D quota func rest (sleep (of_int (D * 2 ^ attempt)) w1)
             else if int attempt = int N - 1 then (Inl e, w1)
             else retry_loop N D quota func rest (sleep (of_int (D * 2 ^ attempt)) w1))
          else
            (if int attempt = int N - 1 then (Inl e, w1)
             else retry_loop N D quota func rest (sleep (of_int (D * 2 ^ attempt)) w1)))"

definition retry_on_failure :: "quota \<Rightarrow> (nat \<Rightarrow> exn + 'a) \<Rightarrow> world \<Rightarrow> (exn + 'a) \<times> world" where
  "retry_on_failure quota func w =
     retry_loop RETRY_ATTEMPTS RETRY_DELAY quota func [0..<RETRY_ATTEMPTS] w"

text \<open>
  A failure of the wrapped operation other than the quota-exceeded signal: a 403, another
  \<open>GithubException\<close> or any other exception.
\<close>

definition transient :: "exn + 'a \<Rightarrow> bool" where
  "transient r = (case r of Inl e \<Rightarrow> e \<noteq> RateLimitExceededException | Inr _ \<Rightarrow> False)"

text \<open>
  The effects of \<open>k\<close> failed attempts followed by a successful one, the first of them being
  attempt \<open>a\<close>: each failed invocation is followed by its backoff sleep.
\<close>

fun backoff_trace :: "int \<Rightarrow> nat \<Rightarrow> nat \<Rightarrow> event list" where
  "backoff_trace D a 0 = [Call]"
| "backoff_trace D a (Suc k) = Call # Sleep (of_int (D * 2 ^ a)) # backoff_trace D (Suc a) k"

text \<open>
  The effects of the rate limiter at the probe that finds \<open>quota i\<close>: the probe, and
  the wait until the reset plus ten seconds when the remaining quota is under the buffer.
  The effects of \<open>n\<close> consecutive quota-exceeded attempts, the first of them made when
  \<open>p\<close> probes have been made: each invocation is followed by the rate limiter and by
  nothing else.
\<close>

definition guard_events :: "quota \<Rightarrow> nat \<Rightarrow> event list" where
  "guard_events quota i =
     (case quota i of
        Inl e \<Rightarrow> [RateLimitProbe]
      | Inr (remaining, wait_time) \<Rightarrow>
          if remaining < RATE_LIMIT_BUFFER \<and> wait_time > 0
          then [RateLimitProbe, Sleep (wait_time + 10)] else [RateLimitProbe])"

fun quota_trace :: "quota \<Rightarrow> nat \<Rightarrow> nat \<Rightarrow> event list" where
  "quota_trace quota p 0 = []"
| "quota_trace quota p (Suc n) = Call # guard_events quota p @ quota_trace quota (Suc p) n"

definition world0 :: world where
  "world0 = \<lparr>calls = 0, probes = 0, trace = []\<rparr>"

definition quota_ok :: quota where
  "quota_ok i = Inr (5000, 0)"

definition quota_low :: quota where
  "quota_low i = Inr (5, 60)"

text \<open>
  What the executor raises once the attempts are used up, given the exception of the last
  invocation: after a 403 the loop sleeps and runs out, raising the generic exception;
  any other exception is re-raised as it is.
\<close>

definition exhausted_with :: "exn \<Rightarrow> exn" where
  "exhausted_with e =
     (if e = GithubException 403 then OtherException ''All retry attempts failed'' else e)"

text \<open>Concrete operations used to evaluate the executor.\<close>

definition always_boom :: "nat \<Rightarrow> exn + nat" where
  "always_boom i = Inl (OtherException ''boom'')"

definition quota_twice :: "nat \<Rightarrow> exn + nat" where
  "quota_twice i = (if i < 2 then Inl RateLimitExceededException else Inr 7)"

definition quota_thrice :: "nat \<Rightarrow> exn + nat" where
  "quota_thrice i = (if i < 3 then Inl RateLimitExceededException else Inr 7)"

definition quota_then_timeouts :: "nat \<Rightarrow> exn + nat" where
  "quota_then_timeouts i =
     (if i = 0 then Inl RateLimitExceededException
      else if i < 3 then Inl (OtherException ''timeout'') else Inr 7)"

section \<open>Extension to language (utils.map_extension_to_language)\<close>

text \<open>
  The dictionary literal of the source, in its order; a value \<open>None\<close> marks the binary,
  compiled and media extensions that are excluded from the language statistics.
\<close>

definition language_map :: "(string \<times> string option) list" where
  "language_map =
     [(''py'', Some ''Python''),
      (''js'', Some ''JavaScript''),
      (''ts'', Some ''TypeScript''),
      (''jsx'', Some ''React/JSX''),
      (''tsx'', Some ''React/TSX''),
      (''java'', Some ''Java''),
      (''cpp'', Some ''C++''),
      (''cc'', Some ''C++''),
      (''cxx'', Some ''C++''),
      (''h'', Some ''C/C++ Header''),
      (''hpp'', Some ''C++ Header''),
      (''c'', Some ''C''),
      (''cs'', Some ''C#''),
      (''go'', Some ''Go''),
      (''rs'', Some ''Rust''),
      (''php'', Some ''PHP''),
      (''rb'', Some ''Ruby''),
      (''swift'', Some ''Swift''),
      (''kt'', Some ''Kotlin''),
      (''scala'', Some ''Scala''),
      (''r'', Some ''R''),
      (''m'', Some ''MATLAB''),
      (''sql'', Some ''SQL''),
      (''html'', Some ''HTML''),
      (''css'', Some ''CSS''),
      (''scss'', Some ''SCSS''),
      (''sass'', Some ''Sass''),
      (''vue'', Some ''Vue''),
      (''md'', Some ''Markdown''),
      (''json'', Some ''Config/JSON''),
      (''xml'', Some ''Config/XML''),
      (''yaml'', Some ''Config/YAML''),
      (''yml'', Some ''Config/YAML''),
      (''toml'', Some ''Config/TOML''),
      (''ini'', Some ''Config/INI''),
      (''sh'', Some ''Shell''),
      (''bash'', Some ''Bash''),
      (''ps1'', Some ''PowerShell''),
      (''ipynb'', Some ''Jupyter''),
      (''txt'', Some ''Text''),
      (''lock'', Some ''Lock File''),
      (''gitignore'', Some ''Git''),
      (''dockerignore'', Some ''Docker''),
      (''env'', Some ''Environment''),
      (''exe'', None),
      (''dll'', None),
      (''so'', None),
      (''dylib'', None),
      (''pyc'', None),
      (''pyo'', None),
      (''pyd'', None),
      (''class'', None),
      (''o'', None),
      (''a'', None),
      (''png'', None),
      (''jpg'', None),
      (''jpeg'', None),
      (''gif'', None),
      (''svg'', None),
      (''ico'', None),
      (''mp4'', None),
      (''mp3'', None),
      (''wav'', None),
      (''pdf'', None),
      (''zip'', None),
      (''tar'', None),
      (''gz'', None),
      (''no_extension'', Some ''Other'')]"

definition map_extension_to_language :: "string \<Rightarrow> string option" where
  "map_extension_to_language ext =
     (let result = (case map_of language_map ext of Some r \<Rightarrow> r | None \<Rightarrow> Some ''Other'')
      in if result \<noteq> None then result else None)"

text \<open>The extensions listed under the two ``exclude'' comments of the dictionary.\<close>

definition excluded_extensions :: "string list" where
  "excluded_extensions =
     [''exe'', ''dll'', ''so'', ''dylib'', ''pyc'', ''pyo'', ''pyd'', ''class'', ''o'', ''a'', ''png'', ''jpg'', ''jpeg'', ''gif'', ''svg'', ''ico'', ''mp4'', ''mp3'', ''wav'', ''pdf'', ''zip'', ''tar'', ''gz'']"

section \<open>JSON files (utils.load_json)\<close>

text \<open>
  A value as \<open>json.load\<close> returns it: \<open>JNull\<close> is Python's \<open>None\<close>, an object is a
  dictionary given by its items in insertion order (numbers are integers here). A file is
  absent, present without being valid JSON, or present with the value it parses to.
\<close>

datatype json =
    JNull
  | JBool bool
  | JNum int
  | JStr string
  | JArr "json list"
  | JObj "(string \<times> json) list"

datatype file_state = Missing | Unparseable | Parsed json

type_synonym files = "path \<Rightarrow> file_state"

definition load_json :: "files \<Rightarrow> path \<Rightarrow> exn + json" where
  "load_json fs filepath =
     (case fs filepath of
        Missing \<Rightarrow> Inr JNull
      | Unparseable \<Rightarrow> Inl JSONDecodeError
      | Parsed v \<Rightarrow> Inr v)"

text \<open>Python's truth value of a loaded value, as \<open>not metadata\<close> and \<open>if cached_data\<close> test it.\<close>

fun truthy :: "json \<Rightarrow> bool" where
  "truthy JNull = False"
| "truthy (JBool b) = b"
| "truthy (JNum n) = (n \<noteq> 0)"
| "truthy (JStr s) = (s \<noteq> [])"
| "truthy (JArr xs) = (xs \<noteq> [])"
| "truthy (JObj kvs) = (kvs \<noteq> [])"

fun startswith :: "string \<Rightarrow> string \<Rightarrow> bool" where
  "startswith s [] = True"
| "startswith [] (p # ps) = False"
| "startswith (c # s) (p # ps) = (c = p \<and> startswith s ps)"

fun contains_str :: "string \<Rightarrow> string \<Rightarrow> bool" where
  "contains_str [] sub = (sub = [])"
| "contains_str (c # s) sub = (startswith (c # s) sub \<or> contains_str s sub)"

text \<open>
  \<open>key in v\<close>: a key of a dictionary, an element of a list, a substring of a string;
  numbers and booleans are not iterable.
\<close>

fun py_in :: "string \<Rightarrow> json \<Rightarrow> exn + bool" where
  "py_in key (JObj kvs) = Inr (key \<in> set (map fst kvs))"
| "py_in key (JArr xs) = Inr (JStr key \<in> set xs)"
| "py_in key (JStr s) = Inr (contains_str s key)"
| "py_in key _ = Inl TypeError"

text \<open>\<open>v[key]\<close> with a string key: only a dictionary can be indexed so.\<close>

fun py_getitem :: "json \<Rightarrow> string \<Rightarrow> exn + json" where
  "py_getitem (JObj kvs) key =
     (case map_of kvs key of Some v \<Rightarrow> Inr v | None \<Rightarrow> Inl (KeyError key))"
| "py_getitem _ key = Inl TypeError"

section \<open>Cache validity (utils.is_cache_valid)\<close>

text \<open>
  A \<open>datetime\<close> is naive or timezone-aware, with its instant in microseconds;
  \<open>datetime.now()\<close> is naive, and subtracting an aware datetime from it is a
  \<open>TypeError\<close>. A \<open>timedelta\<close> is a number of microseconds, and \<open>timedelta(days=d)\<close>
  exists for \<open>|d| \<le> 999999999\<close> only. The parser \<open>datetime.fromisoformat\<close> is a
  parameter (\<open>None\<close> where it raises \<open>ValueError\<close>).
\<close>

datatype datetime = Naive int | Aware int

definition py_fromisoformat :: "(string \<Rightarrow> datetime option) \<Rightarrow> json \<Rightarrow> exn + datetime" where
  "py_fromisoformat fromisoformat v =
     (case v of
        JStr s \<Rightarrow> (case fromisoformat s of Some d \<Rightarrow> Inr d | None \<Rightarrow> Inl ValueError)
      | _ \<Rightarrow> Inl TypeError)"

definition now_minus :: "int \<Rightarrow> datetime \<Rightarrow> exn + int" where
  "now_minus now d = (case d of Naive t \<Rightarrow> Inr (now - t) | Aware t \<Rightarrow> Inl TypeError)"

definition timedelta_days :: "int \<Rightarrow> exn + int" where
  "timedelta_days days =
     (if \<bar>days\<bar> \<le> 999999999 then Inr (days * 86400000000) else Inl OverflowError)"

definition is_cache_valid ::
  "(string \<Rightarrow> datetime option) \<Rightarrow> int \<Rightarrow> files \<Rightarrow> path \<Rightarrow> int \<Rightarrow> exn + bool"
where
  "is_cache_valid fromisoformat now fs cache_metadata_path max_age_days =
     (if fs cache_metadata_path = Missing then Inr False
      else case load_json fs cache_metadata_path of
        Inl e \<Rightarrow> Inl e
      | Inr metadata \<Rightarrow>
          if \<not> truthy metadata then Inr False
          else case py_in ''timestamp'' metadata of
            Inl e \<Rightarrow> Inl e
          | Inr present \<Rightarrow>
              if \<not> present then Inr False
              else case py_getitem metadata ''timestamp'' of
                Inl e \<Rightarrow> Inl e
              | Inr ts \<Rightarrow>
                  (case py_fromisoformat fromisoformat ts of
                     Inl e \<Rightarrow> Inl e
                   | Inr cache_time \<Rightarrow>
                       (case now_minus now cache_time of
                          Inl e \<Rightarrow> Inl e
                        | Inr age \<Rightarrow>
                            (case timedelta_days max_age_days of
                               Inl e \<Rightarrow> Inl e
                             | Inr limit \<Rightarrow> Inr (age < limit)))))"

text \<open>Concrete files and a concrete parser used to evaluate the check.\<close>

definition iso_example :: "string \<Rightarrow> datetime option" where
  "iso_example s = (if s = ''2024-03-15T20:30:00'' then Some (Naive 0) else None)"

definition fs_fresh :: files where
  "fs_fresh p = Parsed (JObj [(''timestamp'', JStr ''2024-03-15T20:30:00''),
     (''commit_count'', JNum 3), (''repository_count'', JNum 1), (''username'', JStr ''octocat'')])"


section \<open>Commit records (the dictionaries built by fetch_commits_from_repo)\<close>

text \<open>\<open>str.lower()\<close> on the ASCII letters.\<close>

definition to_lower :: "char \<Rightarrow> char" where
  "to_lower c =
     (let n = (of_char c :: nat) in if 65 \<le> n \<and> n \<le> 90 then char_of (n + 32) else c)"

definition get_file_extension :: "string \<Rightarrow> string" where
  "get_file_extension fname =
     (if CHR ''.'' \<notin> set fname then ''no_extension''
      else map to_lower (rev (takeWhile (\<lambda>c. c \<noteq> CHR ''.'') (rev fname))))"

record file_change =
  filename :: string
  extension :: string
  additions :: int
  deletions :: int
  changes :: int

text \<open>
  The \<open>timestamp\<close> entry of a commit is the ISO-8601 text written by \<open>isoformat()\<close>
  until \<open>pd.to_datetime\<close> turns the column into pandas timestamps. Both carry the instant,
  in microseconds since 1970-01-01T00:00:00 of the one time zone PyGithub reports dates in,
  and within the range pandas can represent.
\<close>

datatype timestamp_cell = IsoText int | Timestamp int

fun instant :: "timestamp_cell \<Rightarrow> int" where
  "instant (IsoText t) = t"
| "instant (Timestamp t) = t"

record commit_data =
  sha :: string
  message :: string
  timestamp :: timestamp_cell
  repo_name :: string
  repo_full_name :: string
  author :: string
  files_changed :: "file_change list"

section \<open>The commit table (pandas DataFrame)\<close>

text \<open>
  The derived columns of a row. A table is its column labels, in order, and its rows; a
  row is the commit dictionary together with its derived columns, once they are computed.
\<close>

record derived =
  hour :: int
  day_of_week :: string
  day_of_week_num :: int
  date :: "int \<times> int \<times> int"
  month :: "int \<times> int"
  year :: int
  message_length :: int
  message_word_count :: int
  files_count :: int

type_synonym row = "commit_data \<times> derived option"

record dataframe =
  columns :: "string list"
  rows :: "row list"

definition raw_columns :: "string list" where
  "raw_columns = [''sha'', ''message'', ''timestamp'', ''repo_name'', ''repo_full_name'',
     ''author'', ''files_changed'']"

definition derived_columns :: "string list" where
  "derived_columns = [''hour'', ''day_of_week'', ''day_of_week_num'', ''date'', ''month'',
     ''year'', ''message_length'', ''message_word_count'', ''files_count'']"

text \<open>\<open>pd.DataFrame(records)\<close> on a list of commit dictionaries; no record, no column.\<close>

definition DataFrame :: "commit_data list \<Rightarrow> dataframe" where
  "DataFrame records =
     \<lparr>columns = (if records = [] then [] else raw_columns),
      rows = map (\<lambda>r. (r, None)) records\<rparr>"

text \<open>\<open>df.empty\<close>: one of the two axes has length zero.\<close>

definition df_empty :: "dataframe \<Rightarrow> bool" where
  "df_empty df = (rows df = [] \<or> columns df = [])"

text \<open>\<open>df[c] = ...\<close> keeps the place of an existing column and appends a new one.\<close>

definition set_column :: "string \<Rightarrow> string list \<Rightarrow> string list" where
  "set_column c cols = (if c \<in> set cols then cols else cols @ [c])"

section \<open>Calendar fields of an instant (the pandas \<open>.dt\<close> accessors)\<close>

definition dt_days :: "int \<Rightarrow> int" where
  "dt_days t = t div 86400000000"

definition dt_hour :: "int \<Rightarrow> int" where
  "dt_hour t = (t div 3600000000) mod 24"

definition dt_dayofweek :: "int \<Rightarrow> int" where
  "dt_dayofweek t = (dt_days t + 3) mod 7"

definition dt_day_name :: "int \<Rightarrow> string" where
  "dt_day_name t =
     [''Monday'', ''Tuesday'', ''Wednesday'', ''Thursday'', ''Friday'', ''Saturday'', ''Sunday'']
       ! nat (dt_dayofweek t)"

text \<open>The proleptic Gregorian date of a day number counted from 1970-01-01.\<close>

definition civil_from_days :: "int \<Rightarrow> int \<times> int \<times> int" where
  "civil_from_days days =
     (let z = days + 719468;
          era = z div 146097;
          doe = z - era * 146097;
          yoe = (doe - doe div 1460 + doe div 36524 - doe div 146096) div 365;
          doy = doe - (365 * yoe + yoe div 4 - yoe div 100);
          mp = (5 * doy + 2) div 153;
          d = doy - (153 * mp + 2) div 5 + 1;
          m = (if mp < 10 then mp + 3 else mp - 9);
          y = yoe + era * 400 + (if m \<le> 2 then 1 else 0)
      in (y, m, d))"

definition dt_date :: "int \<Rightarrow> int \<times> int \<times> int" where
  "dt_date t = civil_from_days (dt_days t)"

definition dt_month :: "int \<Rightarrow> int \<times> int" where
  "dt_month t = (case dt_date t of (y, m, d) \<Rightarrow> (y, m))"

definition dt_year :: "int \<Rightarrow> int" where
  "dt_year t = (case dt_date t of (y, m, d) \<Rightarrow> y)"

section \<open>Message features\<close>

definition is_space :: "char \<Rightarrow> bool" where
  "is_space c = (of_char c \<in> {9, 10, 11, 12, 13, 28, 29, 30, 31, 32 :: nat})"

text \<open>\<open>str.split()\<close> without arguments: the maximal runs of non-whitespace characters.\<close>

fun split_acc :: "string \<Rightarrow> string \<Rightarrow> string list" where
  "split_acc cur [] = (if cur = [] then [] else [cur])"
| "split_acc cur (c # cs) =
     (if is_space c then (if cur = [] then split_acc [] cs else cur # split_acc [] cs)
      else split_acc (cur @ [c]) cs)"

definition py_split :: "string \<Rightarrow> string list" where
  "py_split s = split_acc [] s"

section \<open>Normalizer (GitHubDataFetcher._process_dataframe)\<close>

text \<open>
  One row after the column assignments of the source: the timestamp converted by
  \<open>pd.to_datetime\<close>, then the temporal features, the message features and the file count.
\<close>

definition to_datetime :: "timestamp_cell \<Rightarrow> timestamp_cell" where
  "to_datetime c = Timestamp (instant c)"

definition add_features :: "row \<Rightarrow> row" where
  "add_features r =
     (let c = (fst r)\<lparr>timestamp := to_datetime (timestamp (fst r))\<rparr>;
          t = instant (timestamp c)
      in (c, Some \<lparr>hour = dt_hour t,
                   day_of_week = dt_day_name t,
                   day_of_week_num = dt_dayofweek t,
                   date = dt_date t,
                   month = dt_month t,
                   year = dt_year t,
                   message_length = int (length (message c)),
                   message_word_count = int (length (py_split (message c))),
                   files_count = int (length (files_changed c))\<rparr>))"

definition row_instant :: "row \<Rightarrow> int" where
  "row_instant r = instant (timestamp (fst r))"

text \<open>
  \<open>df.sort_values("timestamp")\<close> is a parameter: pandas sorts with its default algorithm,
  which fixes the result only up to the order of rows with equal timestamps. A sorting
  function returns a rearrangement of the rows that ascends in the timestamp.
\<close>

type_synonym sorter = "row list \<Rightarrow> row list"

definition sorts_by_timestamp :: "sorter \<Rightarrow> bool" where
  "sorts_by_timestamp sort_values \<longleftrightarrow>
     (\<forall>xs. mset (sort_values xs) = mset xs \<and> sorted (map row_instant (sort_values xs)))"

definition process_dataframe :: "sorter \<Rightarrow> dataframe \<Rightarrow> exn + dataframe" where
  "process_dataframe sort_values df =
     (if df_empty df then Inr df
      else if ''timestamp'' \<notin> set (columns df) then Inl (KeyError ''timestamp'')
      else if ''message'' \<notin> set (columns df) then Inl (KeyError ''message'')
      else if ''files_changed'' \<notin> set (columns df) then Inl (KeyError ''files_changed'')
      else Inr \<lparr>columns = fold set_column derived_columns (columns df),
                rows = sort_values (map add_features (rows df))\<rparr>)"

text \<open>Concrete commits used to evaluate the normalizer.\<close>

definition commit_a :: commit_data where
  "commit_a = \<lparr>sha = ''a1'', message = ''Fix  the parser'', timestamp = IsoText 1710534600000000,
     repo_name = ''demo'', repo_full_name = ''octocat/demo'', author = ''Octo Cat'',
     files_changed = [\<lparr>filename = ''a.py'', extension = ''py'', additions = 3, deletions = 1,
       changes = 4\<rparr>]\<rparr>"

definition commit_b :: commit_data where
  "commit_b = \<lparr>sha = ''b2'', message = ''Add docs'', timestamp = IsoText 1710534600000000,
     repo_name = ''demo'', repo_full_name = ''octocat/demo'', author = ''Octo Cat'',
     files_changed = []\<rparr>"

definition commit_c :: commit_data where
  "commit_c = \<lparr>sha = ''c3'', message = ''Initial commit'', timestamp = IsoText 1000000,
     repo_name = ''demo'', repo_full_name = ''octocat/demo'', author = ''Octo Cat'',
     files_changed = []\<rparr>"

text \<open>A sorting function that keeps rows with equal timestamps in their order.\<close>

definition stable_sort :: sorter where
  "stable_sort xs = sort_key row_instant xs"

section \<open>Settings and the remote API\<close>

record settings =
  github_username :: string
  cache_enabled :: bool
  cache_days :: int
  max_repositories :: int
  commits_per_repo :: int

text \<open>
  What PyGithub hands out. A commit of a listing is an object whose attributes are read
  lazily: reading them raises, or gives the fields and the file list (which may raise in
  turn). A listing is paginated: iterating it yields its items and then, if a later page
  fails, raises. A repository has its name, the listing of the target user's commits that
  the enumerator probes, and the listing each later extraction sees (by the number of
  wrapped invocations made before it).
\<close>

record remote_file =
  f_filename :: string
  f_additions :: int
  f_deletions :: int
  f_changes :: int

record remote_commit =
  c_sha :: string
  c_message :: string
  c_date :: int
  c_author :: string
  c_files :: "exn + remote_file list"

record listing =
  items :: "(exn + remote_commit) list"
  failure :: "exn option"

record repo =
  name :: string
  full_name :: string
  probe_listing :: listing
  fetch_listing :: "nat \<Rightarrow> listing"

record user =
  get_repos :: "exn + repo list"

text \<open>
  \<open>list(paginated[:stop])\<close>: the first \<open>stop\<close> items (none for a negative \<open>stop\<close>);
  the failure of the listing is met only if fewer items than asked for come before it.
\<close>

definition sliced :: "int \<Rightarrow> listing \<Rightarrow> (exn + remote_commit) list \<times> exn option" where
  "sliced stop l =
     (if nat stop \<le> length (items l) then (take (nat stop) (items l), None)
      else (items l, failure l))"

text \<open>\<open>xs[:stop]\<close> on a Python list: a negative \<open>stop\<close> counts from the end.\<close>

definition py_slice_to :: "int \<Rightarrow> 'a list \<Rightarrow> 'a list" where
  "py_slice_to stop xs =
     (if 0 \<le> stop then take (nat stop) xs else take (length xs - nat (- stop)) xs)"

section \<open>Repository enumerator (GitHubDataFetcher.fetch_repositories)\<close>

text \<open>The probe \<open>list(repo.get_commits(author=self.username)[:1])\<close>.\<close>

definition probe :: "repo \<Rightarrow> exn + (exn + remote_commit) list" where
  "probe r = (case sliced 1 (probe_listing r) of (cs, Some e) \<Rightarrow> Inl e | (cs, None) \<Rightarrow> Inr cs)"

fun filter_repositories :: "repo list \<Rightarrow> repo list \<Rightarrow> exn + repo list" where
  "filter_repositories [] repos = Inr repos"
| "filter_repositories (r # rest) repos =
     (case probe r of
        Inl e \<Rightarrow> if is_GithubException e then filter_repositories rest repos else Inl e
      | Inr commits \<Rightarrow>
          if commits \<noteq> [] then filter_repositories rest (repos @ [r])
          else filter_repositories rest repos)"

definition fetch_repositories ::
  "settings \<Rightarrow> quota \<Rightarrow> (nat \<Rightarrow> exn + user) \<Rightarrow> world \<Rightarrow> (exn + repo list) \<times> world"
where
  "fetch_repositories cfg quota get_user w =
     (case retry_on_failure quota get_user w of
        (Inl e, w') \<Rightarrow> (Inl e, w')
      | (Inr u, w') \<Rightarrow>
          (case get_repos u of
             Inl e \<Rightarrow> if is_GithubException e then (Inr [], w') else (Inl e, w')
           | Inr listed \<Rightarrow>
               (case filter_repositories (py_slice_to (max_repositories cfg) listed) [] of
                  Inl e \<Rightarrow> if is_GithubException e then (Inr [], w') else (Inl e, w')
                | Inr repos \<Rightarrow> (Inr repos, w'))))"

text \<open>A repository qualifies when its probe returns at least one commit.\<close>

definition qualifies :: "repo \<Rightarrow> bool" where
  "qualifies r = (case probe r of Inl e \<Rightarrow> False | Inr commits \<Rightarrow> commits \<noteq> [])"

text \<open>Concrete repositories and settings used to evaluate the enumerator.\<close>

definition a_commit :: remote_commit where
  "a_commit = \<lparr>c_sha = ''a1'', c_message = ''Fix  the parser'', c_date = 1710534600000000,
     c_author = ''Octo Cat'',
     c_files = Inr [\<lparr>f_filename = ''a.py'', f_additions = 3, f_deletions = 1, f_changes = 4\<rparr>]\<rparr>"

definition repo_active :: repo where
  "repo_active = \<lparr>name = ''demo'', full_name = ''octocat/demo'',
     probe_listing = \<lparr>items = [Inr a_commit], failure = None\<rparr>,
     fetch_listing = (\<lambda>i. \<lparr>items = [Inr a_commit], failure = None\<rparr>)\<rparr>"

definition repo_denied :: repo where
  "repo_denied = \<lparr>name = ''secret'', full_name = ''corp/secret'',
     probe_listing = \<lparr>items = [], failure = Some (GithubException 404)\<rparr>,
     fetch_listing = (\<lambda>i. \<lparr>items = [], failure = Some (GithubException 404)\<rparr>)\<rparr>"

definition repo_idle :: repo where
  "repo_idle = \<lparr>name = ''fork'', full_name = ''octocat/fork'',
     probe_listing = \<lparr>items = [], failure = None\<rparr>,
     fetch_listing = (\<lambda>i. \<lparr>items = [], failure = None\<rparr>)\<rparr>"

definition user_octocat :: "nat \<Rightarrow> exn + user" where
  "user_octocat i = Inr \<lparr>get_repos = Inr [repo_denied, repo_active, repo_idle, repo_active]\<rparr>"

definition cfg_default :: settings where
  "cfg_default = \<lparr>github_username = ''octocat'', cache_enabled = True, cache_days = 7,
     max_repositories = 100, commits_per_repo = 1000\<rparr>"

definition cfg_three :: settings where
  "cfg_three = cfg_default\<lparr>max_repositories := 3\<rparr>"

section \<open>Commit extractor (GitHubDataFetcher.fetch_commits_from_repo)\<close>

definition file_info :: "remote_file \<Rightarrow> file_change" where
  "file_info f =
     \<lparr>filename = f_filename f,
      extension = get_file_extension (f_filename f),
      additions = f_additions f,
      deletions = f_deletions f,
      changes = f_changes f\<rparr>"

text \<open>
  One commit of the listing: a commit whose attributes cannot be read is skipped; a file
  list that raises a \<open>GithubException\<close> leaves \<open>files_changed\<close> empty, any other
  exception there skips the commit; at most 50 files are kept.
\<close>

definition extract_commit :: "repo \<Rightarrow> exn + remote_commit \<Rightarrow> commit_data option" where
  "extract_commit r item =
     (case item of
        Inl e \<Rightarrow> None
      | Inr c \<Rightarrow>
          (let commit_data = \<lparr>sha = c_sha c,
                              message = c_message c,
                              timestamp = IsoText (c_date c),
                              repo_name = name r,
                              repo_full_name = full_name r,
                              author = c_author c,
                              files_changed = []\<rparr>
           in case c_files c of
                Inr files \<Rightarrow>
                  Some (commit_data\<lparr>files_changed := map file_info (take 50 files)\<rparr>)
              | Inl e \<Rightarrow> if is_GithubException e then Some commit_data else None))"

text \<open>
  The extraction from the listing \<open>l\<close> that this invocation sees: a \<open>GithubException\<close>
  while listing ends the loop with the commits gathered so far; any other exception
  leaves the function.
\<close>

definition fetch_commits_from_repo :: "settings \<Rightarrow> repo \<Rightarrow> listing \<Rightarrow> exn + commit_data list" where
  "fetch_commits_from_repo cfg r l =
     (case sliced (commits_per_repo cfg) l of
        (commits, None) \<Rightarrow> Inr (List.map_filter (extract_commit r) commits)
      | (commits, Some e) \<Rightarrow>
          if is_GithubException e then Inr (List.map_filter (extract_commit r) commits)
          else Inl e)"

section \<open>Cache store (utils.save_json) and the orchestrator (fetch_all_commits)\<close>

text \<open>
  The library functions and the readings of the outside world that the orchestrator uses
  are gathered in one environment: the remote quota and user, \<open>datetime.fromisoformat\<close>
  and \<open>isoformat\<close>, the two readings of \<open>datetime.now()\<close> (in the validity check and when
  the metadata is written), \<open>pd.DataFrame\<close> on a value loaded from the cache, and
  \<open>sort_values\<close>.
\<close>

record env =
  env_quota :: quota
  env_get_user :: "nat \<Rightarrow> exn + user"
  env_fromisoformat :: "string \<Rightarrow> datetime option"
  env_isoformat :: "int \<Rightarrow> string"
  env_now_check :: int
  env_now_save :: int
  env_frame_of_json :: "json \<Rightarrow> exn + dataframe"
  env_sort_values :: sorter

definition save_json :: "json \<Rightarrow> path \<Rightarrow> files \<times> world \<Rightarrow> files \<times> world" where
  "save_json data filepath s = ((fst s)(filepath := Parsed data), emit (Write filepath) (snd s))"

definition json_of_file :: "file_change \<Rightarrow> json" where
  "json_of_file f =
     JObj [(''filename'', JStr (filename f)), (''extension'', JStr (extension f)),
           (''additions'', JNum (additions f)), (''deletions'', JNum (deletions f)),
           (''changes'', JNum (changes f))]"

definition json_of_commit :: "(int \<Rightarrow> string) \<Rightarrow> commit_data \<Rightarrow> json" where
  "json_of_commit isoformat c =
     JObj [(''sha'', JStr (sha c)), (''message'', JStr (message c)),
           (''timestamp'', JStr (isoformat (instant (timestamp c)))),
           (''repo_name'', JStr (repo_name c)), (''repo_full_name'', JStr (repo_full_name c)),
           (''author'', JStr (author c)),
           (''files_changed'', JArr (map json_of_file (files_changed c)))]"

definition cache_metadata :: "env \<Rightarrow> settings \<Rightarrow> commit_data list \<Rightarrow> repo list \<Rightarrow> json" where
  "cache_metadata E cfg all_commits repos =
     JObj [(''timestamp'', JStr (env_isoformat E (env_now_save E))),
           (''commit_count'', JNum (int (length all_commits))),
           (''repository_count'', JNum (int (length repos))),
           (''username'', JStr (github_username cfg))]"

text \<open>\<open>self.use_cache\<close>, as the constructor sets it.\<close>

definition self_use_cache :: "settings \<Rightarrow> bool \<Rightarrow> bool" where
  "self_use_cache cfg use_cache = (use_cache \<and> cache_enabled cfg)"

text \<open>The loop over the repositories: rate-limit guard, extraction under retry, pause.\<close>

fun fetch_loop ::
  "settings \<Rightarrow> quota \<Rightarrow> repo list \<Rightarrow> commit_data list \<Rightarrow> world
    \<Rightarrow> (exn + commit_data list) \<times> world"
where
  "fetch_loop cfg quota [] all_commits w = (Inr all_commits, w)"
| "fetch_loop cfg quota (r # rest) all_commits w =
     (case check_rate_limit quota w of
        (Inl e, w1) \<Rightarrow> (Inl e, w1)
      | (Inr _, w1) \<Rightarrow>
          (case retry_on_failure quota
                  (\<lambda>i. fetch_commits_from_repo cfg r (fetch_listing r i)) w1 of
             (Inl e, w2) \<Rightarrow> (Inl e, w2)
           | (Inr commits, w2) \<Rightarrow>
               fetch_loop cfg quota rest (all_commits @ commits) (sleep (1 / 10) w2)))"

text \<open>The part of \<open>fetch_all_commits\<close> after the cache check (``Fetch fresh data'').\<close>

definition fetch_fresh ::
  "env \<Rightarrow> settings \<Rightarrow> bool \<Rightarrow> files \<Rightarrow> world \<Rightarrow> (exn + dataframe) \<times> files \<times> world"
where
  "fetch_fresh E cfg use_cache fs w =
     (case fetch_repositories cfg (env_quota E) (env_get_user E) w of
        (Inl e, w1) \<Rightarrow> (Inl e, fs, w1)
      | (Inr repos, w1) \<Rightarrow>
          if repos = [] then (Inr \<lparr>columns = [], rows = []\<rparr>, fs, w1)
          else
            (case fetch_loop cfg (env_quota E) repos [] w1 of
               (Inl e, w2) \<Rightarrow> (Inl e, fs, w2)
             | (Inr all_commits, w2) \<Rightarrow>
                 (let saved =
                        (if self_use_cache cfg use_cache \<and> all_commits \<noteq> [] then
                           save_json (cache_metadata E cfg all_commits repos) CACHE_METADATA_FILE
                             (save_json (JArr (map (json_of_commit (env_isoformat E)) all_commits))
                                CACHE_FILE (fs, w2))
                         else (fs, w2))
                  in (process_dataframe (env_sort_values E) (DataFrame all_commits),
                      fst saved, snd saved))))"

definition fetch_all_commits ::
  "env \<Rightarrow> settings \<Rightarrow> bool \<Rightarrow> files \<Rightarrow> world \<Rightarrow> (exn + dataframe) \<times> files \<times> world"
where
  "fetch_all_commits E cfg use_cache fs w =
     (if self_use_cache cfg use_cache then
        (case is_cache_valid (env_fromisoformat E) (env_now_check E) fs CACHE_METADATA_FILE
                (cache_days cfg) of
           Inl e \<Rightarrow> (Inl e, fs, w)
         | Inr valid \<Rightarrow>
             if valid then
               (case load_json fs CACHE_FILE of
                  Inl e \<Rightarrow> (Inl e, fs, w)
                | Inr cached_data \<Rightarrow>
                    if truthy cached_data then
                      (case env_frame_of_json E cached_data of
                         Inl e \<Rightarrow> (Inl e, fs, w)
                       | Inr df \<Rightarrow> (process_dataframe (env_sort_values E) df, fs, w))
                    else fetch_fresh E cfg use_cache fs w)
             else fetch_fresh E cfg use_cache fs w)
      else fetch_fresh E cfg use_cache fs w)"

text \<open>A concrete environment and concrete cache states used to evaluate the orchestrator.\<close>

definition env_example :: env where
  "env_example =
     \<lparr>env_quota = quota_ok,
      env_get_user = user_octocat,
      env_fromisoformat = iso_example,
      env_isoformat = (\<lambda>t. ''2024-03-15T20:30:00''),
      env_now_check = 1,
      env_now_save = 2,
      env_frame_of_json = (\<lambda>v. Inl ValueError),
      env_sort_values = stable_sort\<rparr>"


definition fs_no_data :: files where
  "fs_no_data p = (case p of CACHE_FILE \<Rightarrow> Missing | CACHE_METADATA_FILE \<Rightarrow> fs_fresh p)"

definition fs_torn :: files where
  "fs_torn p = (case p of CACHE_FILE \<Rightarrow> Unparseable | CACHE_METADATA_FILE \<Rightarrow> fs_fresh p)"

section \<open>Basic facts about the world\<close>

lemma calls_emit [simp]: "calls (emit e w) = calls w"
  by (simp add: emit_def)

lemma probes_emit [simp]: "probes (emit e w) = probes w"
  by (simp add: emit_def)

lemma trace_emit [simp]: "trace (emit e w) = trace w @ [e]"
  by (simp add: emit_def)

lemma calls_sleep [simp]: "calls (sleep d w) = calls w"
  by (simp add: sleep_def)

lemma probes_sleep [simp]: "probes (sleep d w) = probes w"
  by (simp add: sleep_def)

lemma trace_sleep [simp]: "trace (sleep d w) = trace w @ [Sleep d]"
  by (simp add: sleep_def)

lemma sleeps_append [simp]: "sleeps (xs @ ys) = sleeps xs @ sleeps ys"
  by (induction xs rule: sleeps.induct) simp_all

lemma writes_append [simp]: "writes (xs @ ys) = writes xs @ writes ys"
  by (induction xs rule: writes.induct) simp_all

section \<open>The retry executor: failures followed by a success\<close>

lemma retry_loop_transient_then_success:
  "\<lbrakk>\<forall>i<k. transient (func (calls w + i)); func (calls w + k) = Inr v; a + k < N\<rbrakk>
   \<Longrightarrow> retry_loop N D quota func [a..<N] w =
       (Inr v, w\<lparr>calls := calls w + k + 1, trace := trace w @ backoff_trace D a k\<rparr>)"
proof (induction k arbitrary: a w)
  case 0
  then have "[a..<N] = a # [Suc a..<N]" by (simp add: upt_conv_Cons)
  with 0 show ?case by (simp add: emit_def Let_def)
next
  case (Suc k)
  then have upt: "[a..<N] = a # [Suc a..<N]" by (simp add: upt_conv_Cons)
  from Suc.prems(1) have "transient (func (calls w + 0))" by blast
  then obtain e where e: "func (calls w) = Inl e" "e \<noteq> RateLimitExceededException"
    by (auto simp: transient_def split: sum.splits)
  define w1 where "w1 = sleep (of_int (D * 2 ^ a)) (emit Call (w\<lparr>calls := Suc (calls w)\<rparr>))"
  have notlast: "int a \<noteq> int N - 1" using Suc.prems(3) by simp
  have step: "retry_loop N D quota func [a..<N] w = retry_loop N D quota func [Suc a..<N] w1"
    using e notlast by (simp add: upt w1_def Let_def)
  have c1: "calls w1 = Suc (calls w)" by (simp add: w1_def)
  have "\<forall>i<k. transient (func (calls w1 + i))"
    using Suc.prems(1) by (auto simp: c1)
  moreover have "func (calls w1 + k) = Inr v" using Suc.prems(2) by (simp add: c1)
  moreover have "Suc a + k < N" using Suc.prems(3) by simp
  ultimately have "retry_loop N D quota func [Suc a..<N] w1 =
       (Inr v, w1\<lparr>calls := calls w1 + k + 1, trace := trace w1 @ backoff_trace D (Suc a) k\<rparr>)"
    by (rule Suc.IH)
  then show ?case unfolding step by (simp add: w1_def emit_def sleep_def)
qed

lemma sleeps_backoff_trace:
  "sleeps (backoff_trace D a k) = map (\<lambda>i. of_int (D * 2 ^ i)) [a..<a + k]"
proof (induction k arbitrary: a)
  case 0
  show ?case by simp
next
  case (Suc k)
  have "[a..<a + Suc k] = a # [Suc a..<Suc a + k]" by (simp add: upt_conv_Cons)
  with Suc show ?case by simp
qed

text \<open>
  Claim C2. An operation that fails transiently exactly \<open>k\<close> times, \<open>k < N\<close>, and then
  succeeds: the retry executor returns the operation's value after \<open>k + 1\<close> invocations
  and exactly \<open>k\<close> sleeps, of \<open>D * 2^0, D * 2^1, ..., D * 2^(k-1)\<close> seconds; the executor
  of the source is the one with \<open>N = 3\<close> and \<open>D = 2\<close>. The base delay is a duration,
  \<open>0 \<le> D\<close>.
\<close>

theorem retry_transient_then_success:
  assumes "\<forall>i<k. transient (func (calls w + i))"
    and "func (calls w + k) = Inr v"
    and "k < N"
    and "0 \<le> D"
  shows "fst (retry_loop N D quota func [0..<N] w) = Inr v
       \<and> sleeps (trace (snd (retry_loop N D quota func [0..<N] w)))
           = sleeps (trace w) @ map (\<lambda>i. of_int (D * 2 ^ i)) [0..<k]
       \<and> calls (snd (retry_loop N D quota func [0..<N] w)) = calls w + k + 1
       \<and> retry_on_failure quota func w = retry_loop 3 2 quota func [0..<3] w"
proof -
  from assms(3) have "0 + k < N" by simp
  with assms(1,2) have
    "retry_loop N D quota func [0..<N] w =
       (Inr v, w\<lparr>calls := calls w + k + 1, trace := trace w @ backoff_trace D 0 k\<rparr>)"
    by (rule retry_loop_transient_then_success)
  moreover have "sleeps (backoff_trace D 0 k) = map (\<lambda>i. of_int (D * 2 ^ i)) [0..<k]"
    using sleeps_backoff_trace [of D 0 k] by simp
  ultimately show ?thesis
    by (simp add: retry_on_failure_def RETRY_ATTEMPTS_def RETRY_DELAY_def)
qed

theorem retry_transient_then_success_witness:
  "fst (retry_on_failure quota_ok
          (\<lambda>i. if i < 2 then Inl (OtherException ''timeout'') else Inr (7::nat)) world0) = Inr 7
   \<and> sleeps (trace (snd (retry_on_failure quota_ok
          (\<lambda>i. if i < 2 then Inl (OtherException ''timeout'') else Inr (7::nat)) world0))) = [2, 4]"
  using retry_transient_then_success
    [of 2 "\<lambda>i. if i < 2 then Inl (OtherException ''timeout'') else Inr (7::nat)" world0 7 3 2 quota_ok]
  by (simp add: transient_def world0_def upt_rec)

section \<open>The retry executor: an operation that always fails\<close>

lemma retry_loop_always_failing:
  "\<lbrakk>\<forall>i<N - a. transient (func (calls w + i)); a < N\<rbrakk>
   \<Longrightarrow> \<exists>e w'. func (calls w + (N - a - 1)) = Inl e
          \<and> retry_loop N D quota func [a..<N] w = (Inl (exhausted_with e), w')
          \<and> calls w' = calls w + (N - a)"
proof (induction "N - a" arbitrary: a w)
  case 0
  then show ?case by simp
next
  case (Suc n)
  then have upt: "[a..<N] = a # [Suc a..<N]" by (simp add: upt_conv_Cons)
  from Suc.prems have "transient (func (calls w + 0))" by (metis zero_less_diff)
  then obtain e where e: "func (calls w) = Inl e" "e \<noteq> RateLimitExceededException"
    by (auto simp: transient_def split: sum.splits)
  show ?case
  proof (cases "Suc a = N")
    case True
    then have last: "int a = int N - 1" "[Suc a..<N] = []" "N - a - 1 = 0" "N - a = 1"
      by auto
    show ?thesis
      using e by (auto simp: upt last Let_def exhausted_with_def)
  next
    case False
    with Suc.prems have lt: "Suc a < N" by simp
    then have notlast: "int a \<noteq> int N - 1" by simp
    define w1 where "w1 = sleep (of_int (D * 2 ^ a)) (emit Call (w\<lparr>calls := Suc (calls w)\<rparr>))"
    have step: "retry_loop N D quota func [a..<N] w = retry_loop N D quota func [Suc a..<N] w1"
      using e notlast by (simp add: upt w1_def Let_def)
    have c1: "calls w1 = Suc (calls w)" by (simp add: w1_def)
    have n: "n = N - Suc a" using Suc.hyps(2) by simp
    have "\<forall>i<N - Suc a. transient (func (calls w1 + i))"
    proof (intro allI impI)
      fix i assume "i < N - Suc a"
      then have "Suc i < N - a" by simp
      with Suc.prems(1) have "transient (func (calls w + Suc i))" by blast
      then show "transient (func (calls w1 + i))" by (simp add: c1)
    qed
    from Suc.hyps(1) [OF n this lt] obtain e' w' where
      r: "func (calls w1 + (N - Suc a - 1)) = Inl e'"
         "retry_loop N D quota func [Suc a..<N] w1 = (Inl (exhausted_with e'), w')"
         "calls w' = calls w1 + (N - Suc a)"
      by blast
    have "calls w1 + (N - Suc a - 1) = calls w + (N - a - 1)" using lt by (simp add: c1)
    moreover have "calls w1 + (N - Suc a) = calls w + (N - a)" using lt by (simp add: c1)
    ultimately show ?thesis using r step by auto
  qed
qed

text \<open>
  Claim C3. An operation whose every invocation fails with a failure other than
  quota-exceeded is invoked exactly \<open>N\<close> times, and the executor then raises: the
  exception of the last invocation, or the generic ``All retry attempts failed'' when
  that one was a 403.
\<close>

theorem retry_always_failing_exhausts:
  assumes "\<forall>i<N. transient (func (calls w + i))"
    and "0 \<le> D"
  shows "calls (snd (retry_loop N D quota func [0..<N] w)) = calls w + N
       \<and> (\<exists>e. fst (retry_loop N D quota func [0..<N] w) = Inl e)
       \<and> (0 < N \<longrightarrow> (\<exists>e. func (calls w + (N - 1)) = Inl e
              \<and> fst (retry_loop N D quota func [0..<N] w) = Inl (exhausted_with e)))
       \<and> retry_on_failure quota func w = retry_loop 3 2 quota func [0..<3] w"
proof (cases "0 < N")
  case False
  then show ?thesis
    by (simp add: retry_on_failure_def RETRY_ATTEMPTS_def RETRY_DELAY_def)
next
  case True
  from assms(1) have "\<forall>i<N - 0. transient (func (calls w + i))" by simp
  from retry_loop_always_failing [OF this True, of D quota] obtain e w' where
    "func (calls w + (N - 0 - 1)) = Inl e"
    "retry_loop N D quota func [0..<N] w = (Inl (exhausted_with e), w')"
    "calls w' = calls w + (N - 0)"
    by blast
  with True show ?thesis
    by (auto simp: retry_on_failure_def RETRY_ATTEMPTS_def RETRY_DELAY_def)
qed

theorem retry_always_failing_exhausts_witness:
  "calls (snd (retry_on_failure quota_ok always_boom world0)) = 3
   \<and> fst (retry_on_failure quota_ok always_boom world0) = Inl (OtherException ''boom'')"
  using retry_always_failing_exhausts [of 3 always_boom world0 2 quota_ok]
  by (simp add: transient_def world0_def always_boom_def exhausted_with_def)

section \<open>The retry executor: the quota-exceeded signal\<close>

lemma check_rate_limit_ok:
  "quota (probes w) = Inr r \<Longrightarrow>
   \<exists>w'. check_rate_limit quota w = (Inr (), w') \<and> calls w' = calls w
     \<and> probes w' = Suc (probes w) \<and> trace w' = trace w @ guard_events quota (probes w)"
  by (cases r) (simp add: check_rate_limit_def guard_events_def Let_def)

lemma retry_loop_quota_then_success:
  "\<lbrakk>\<forall>i<j. func (calls w + i) = Inl RateLimitExceededException; func (calls w + j) = Inr v;
    \<forall>i. \<exists>r. quota i = Inr r; a \<le> N\<rbrakk>
   \<Longrightarrow> \<exists>w'. retry_loop N D quota func [a..<N] w =
           (if j < N - a then Inr v else Inl (OtherException ''All retry attempts failed''), w')
        \<and> calls w' = calls w + (if j < N - a then j + 1 else N - a)
        \<and> probes w' = probes w + min j (N - a)
        \<and> trace w' = trace w @ quota_trace quota (probes w) (min j (N - a))
                       @ (if j < N - a then [Call] else [])"
proof (induction j arbitrary: a w)
  case 0
  show ?case
  proof (cases "a < N")
    case True
    then have "[a..<N] = a # [Suc a..<N]" by (simp add: upt_conv_Cons)
    with 0 True show ?thesis by (simp add: Let_def)
  next
    case False
    with 0 show ?thesis by simp
  qed
next
  case (Suc j)
  show ?case
  proof (cases "a < N")
    case False
    with Suc.prems show ?thesis by simp
  next
    case True
    then have upt: "[a..<N] = a # [Suc a..<N]" by (simp add: upt_conv_Cons)
    from Suc.prems(1) have f0: "func (calls w) = Inl RateLimitExceededException"
      by (metis add.right_neutral zero_less_Suc)
    define w1 where "w1 = emit Call (w\<lparr>calls := Suc (calls w)\<rparr>)"
    from Suc.prems(3) obtain r where "quota (probes w1) = Inr r" by blast
    from check_rate_limit_ok [of quota w1 r, OF this] obtain w2 where
      w2: "check_rate_limit quota w1 = (Inr (), w2)" "calls w2 = calls w1"
        "probes w2 = Suc (probes w1)" "trace w2 = trace w1 @ guard_events quota (probes w1)"
      by blast
    have step: "retry_loop N D quota func [a..<N] w = retry_loop N D quota func [Suc a..<N] w2"
      using f0 w2(1) by (simp add: upt Let_def w1_def)
    have c2: "calls w2 = Suc (calls w)" "probes w2 = Suc (probes w)"
      "trace w2 = trace w @ Call # guard_events quota (probes w)"
      using w2 by (simp_all add: w1_def)
    have "\<forall>i<j. func (calls w2 + i) = Inl RateLimitExceededException"
      using Suc.prems(1) by (auto simp: c2)
    moreover have "func (calls w2 + j) = Inr v" using Suc.prems(2) by (simp add: c2)
    moreover have "Suc a \<le> N" using True by simp
    ultimately obtain w' where
      r: "retry_loop N D quota func [Suc a..<N] w2 =
           (if j < N - Suc a then Inr v else Inl (OtherException ''All retry attempts failed''), w')"
         "calls w' = calls w2 + (if j < N - Suc a then j + 1 else N - Suc a)"
         "probes w' = probes w2 + min j (N - Suc a)"
         "trace w' = trace w2 @ quota_trace quota (probes w2) (min j (N - Suc a))
                       @ (if j < N - Suc a then [Call] else [])"
      using Suc.IH [of w2 "Suc a"] Suc.prems(3) by blast
    have e1: "(j < N - Suc a) = (Suc j < N - a)" using True by auto
    have e2: "min (Suc j) (N - a) = Suc (min j (N - Suc a))" using True by auto
    have t: "trace w' = trace w @ quota_trace quota (probes w) (min (Suc j) (N - a))
                       @ (if Suc j < N - a then [Call] else [])"
      unfolding e2 r(4) c2 e1 by simp
    from r(1-3) step c2(1,2) e1 e2 True have
      "retry_loop N D quota func [a..<N] w =
           (if Suc j < N - a then Inr v else Inl (OtherException ''All retry attempts failed''), w')
        \<and> calls w' = calls w + (if Suc j < N - a then Suc j + 1 else N - a)
        \<and> probes w' = probes w + min (Suc j) (N - a)"
      by auto
    with t show ?thesis by blast
  qed
qed

lemma sleeps_quota_trace:
  "sleeps (quota_trace quota p n) = concat (map (\<lambda>i. sleeps (guard_events quota i)) [p..<p + n])"
proof (induction n arbitrary: p)
  case 0
  show ?case by simp
next
  case (Suc n)
  have "[p..<p + Suc n] = p # [Suc p..<Suc p + n]" by (simp add: upt_conv_Cons)
  with Suc show ?case by simp
qed

text \<open>
  Claim C1, as the code has it. On a quota-exceeded signal the executor calls the rate
  limiter and goes on to the next attempt of \<open>range(N)\<close>, with no backoff sleep of its
  own: the signal uses up an attempt like any other failure. With the rate-limit probes
  succeeding, an operation that raises quota-exceeded \<open>j\<close> times and then succeeds returns
  its value iff \<open>j < N\<close>, after \<open>j + 1\<close> invocations and \<open>j\<close> rate-limit checks; with
  \<open>j \<ge> N\<close> it is invoked \<open>N\<close> times and the executor raises ``All retry attempts
  failed''. The effects of the run are, for each signal, the invocation followed by the
  effects of the rate limiter, so that the only sleeps are the waits of the rate limiter.
\<close>

theorem retry_quota_exceeded_consumes_attempt:
  assumes "\<forall>i<j. func (calls w + i) = Inl RateLimitExceededException"
    and "func (calls w + j) = Inr v"
    and "\<forall>i. \<exists>r. quota i = Inr r"
  shows "fst (retry_loop N D quota func [0..<N] w)
           = (if j < N then Inr v else Inl (OtherException ''All retry attempts failed''))
       \<and> calls (snd (retry_loop N D quota func [0..<N] w)) = calls w + (if j < N then j + 1 else N)
       \<and> probes (snd (retry_loop N D quota func [0..<N] w)) = probes w + min j N
       \<and> retry_on_failure quota func w = retry_loop 3 2 quota func [0..<3] w
       \<and> trace (snd (retry_loop N D quota func [0..<N] w))
           = trace w @ quota_trace quota (probes w) (min j N) @ (if j < N then [Call] else [])
       \<and> sleeps (trace (snd (retry_loop N D quota func [0..<N] w)))
           = sleeps (trace w)
             @ concat (map (\<lambda>i. sleeps (guard_events quota i)) [probes w..<probes w + min j N])"
proof -
  have "0 \<le> N" by simp
  from retry_loop_quota_then_success [OF assms this, of D] obtain w' where
    w': "retry_loop N D quota func [0..<N] w =
       (if j < N - 0 then Inr v else Inl (OtherException ''All retry attempts failed''), w')"
    "calls w' = calls w + (if j < N - 0 then j + 1 else N - 0)"
    "probes w' = probes w + min j (N - 0)"
    "trace w' = trace w @ quota_trace quota (probes w) (min j (N - 0))
                       @ (if j < N - 0 then [Call] else [])"
    by blast
  from w'(4) have "sleeps (trace w') = sleeps (trace w)
      @ concat (map (\<lambda>i. sleeps (guard_events quota i)) [probes w..<probes w + min j N])"
    by (simp add: sleeps_quota_trace)
  with w' show ?thesis
    by (simp add: retry_on_failure_def RETRY_ATTEMPTS_def RETRY_DELAY_def)
qed

theorem retry_quota_exceeded_consumes_attempt_witness:
  "fst (retry_on_failure quota_ok quota_twice world0) = Inr 7
   \<and> calls (snd (retry_on_failure quota_ok quota_twice world0)) = 3
   \<and> probes (snd (retry_on_failure quota_ok quota_twice world0)) = 2
   \<and> trace (snd (retry_on_failure quota_ok quota_twice world0))
       = [Call, RateLimitProbe, Call, RateLimitProbe, Call]
   \<and> sleeps (trace (snd (retry_on_failure quota_ok quota_twice world0))) = []
   \<and> sleeps (trace (snd (retry_on_failure quota_low quota_twice world0))) = [70, 70]"
proof -
  have ok: "\<forall>i. \<exists>r. quota_ok i = Inr r" and low: "\<forall>i. \<exists>r. quota_low i = Inr r"
    by (simp_all add: quota_ok_def quota_low_def)
  have f: "\<forall>i<2. quota_twice (calls world0 + i) = Inl RateLimitExceededException"
    "quota_twice (calls world0 + 2) = Inr 7"
    by (simp_all add: quota_twice_def world0_def)
  have w: "calls world0 = 0" "probes world0 = 0" "trace world0 = []"
    by (simp_all add: world0_def)
  have q: "quota_trace quota_ok 0 2 = [Call, RateLimitProbe, Call, RateLimitProbe]"
    by (simp add: numeral_2_eq_2 guard_events_def quota_ok_def RATE_LIMIT_BUFFER_def)
  have q': "quota_trace quota_low 0 2
      = [Call, RateLimitProbe, Sleep 70, Call, RateLimitProbe, Sleep 70]"
    by (simp add: numeral_2_eq_2 guard_events_def quota_low_def RATE_LIMIT_BUFFER_def)
  note a = retry_quota_exceeded_consumes_attempt [OF f ok, of 3 2]
  note b = retry_quota_exceeded_consumes_attempt [OF f low, of 3 2]
  from a have ea: "retry_on_failure quota_ok quota_twice world0
      = retry_loop 3 2 quota_ok quota_twice [0..<3] world0" by blast
  from b have eb: "retry_on_failure quota_low quota_twice world0
      = retry_loop 3 2 quota_low quota_twice [0..<3] world0" by blast
  from a have "fst (retry_loop 3 2 quota_ok quota_twice [0..<3] world0) = Inr 7"
    by simp
  moreover from a have "calls (snd (retry_loop 3 2 quota_ok quota_twice [0..<3] world0)) = 3"
    by (simp add: w)
  moreover from a have "probes (snd (retry_loop 3 2 quota_ok quota_twice [0..<3] world0)) = 2"
    by (simp add: w)
  moreover from a have "trace (snd (retry_loop 3 2 quota_ok quota_twice [0..<3] world0))
       = [Call, RateLimitProbe, Call, RateLimitProbe, Call]"
    by (simp add: w q)
  moreover from a have "sleeps (trace (snd (retry_loop 3 2 quota_ok quota_twice [0..<3] world0))) = []"
    by (simp add: w q)
  moreover from b have "sleeps (trace (snd (retry_loop 3 2 quota_low quota_twice [0..<3] world0)))
       = [70, 70]"
    by (simp add: w q')
  ultimately show ?thesis unfolding ea eb by blast
qed

text \<open>
  The claim as stated fails: three quota-exceeded signals exhaust the three attempts, and
  after one quota-exceeded signal only two attempts are left for other failures.
\<close>

theorem retry_quota_exceeded_counterexample:
  "fst (retry_on_failure quota_ok quota_thrice world0)
     = Inl (OtherException ''All retry attempts failed'')
   \<and> calls (snd (retry_on_failure quota_ok quota_thrice world0)) = 3
   \<and> fst (retry_on_failure quota_ok quota_then_timeouts world0) = Inl (OtherException ''timeout'')"
  by (simp add: retry_on_failure_def RETRY_ATTEMPTS_def RETRY_DELAY_def upt_rec world0_def
      quota_thrice_def quota_then_timeouts_def quota_ok_def check_rate_limit_def
      RATE_LIMIT_BUFFER_def Let_def emit_def sleep_def)

section \<open>Extension to language\<close>

lemma language_map_excluded:
  "ext \<in> set excluded_extensions \<Longrightarrow> map_of language_map ext = Some None"
  unfolding excluded_extensions_def language_map_def by auto

lemma language_map_None_excluded:
  assumes "map_of language_map ext = Some None"
  shows "ext \<in> set excluded_extensions"
proof -
  from assms have "(ext, None) \<in> set language_map" by (rule map_of_SomeD)
  then show ?thesis unfolding excluded_extensions_def language_map_def by simp
qed

text \<open>
  Claim C7. The mapping is a total function of the ext alone (so two calls with the
  same ext agree); it yields the exclusion value \<open>None\<close> exactly on the binary and
  media extensions, and every ext that is not a key of the dictionary yields the
  fallback tag \<open>Other\<close>.
\<close>

theorem map_extension_to_language_total:
  "(ext \<in> set excluded_extensions \<longrightarrow> map_extension_to_language ext = None)
   \<and> (ext \<notin> set (map fst language_map) \<longrightarrow>
        map_extension_to_language ext = Some ''Other'')
   \<and> (map_extension_to_language ext = None \<longleftrightarrow> ext \<in> set excluded_extensions)
   \<and> (ext = ext' \<longrightarrow>
        map_extension_to_language ext = map_extension_to_language ext')"
proof -
  have a: "map_extension_to_language ext = None" if "ext \<in> set excluded_extensions"
    using language_map_excluded [OF that] by (simp add: map_extension_to_language_def)
  have b: "map_extension_to_language ext = Some ''Other''"
    if "ext \<notin> set (map fst language_map)"
  proof -
    from that have "map_of language_map ext = None" by (simp add: map_of_eq_None_iff)
    then show ?thesis by (simp add: map_extension_to_language_def)
  qed
  have c: "ext \<in> set excluded_extensions" if "map_extension_to_language ext = None"
  proof -
    from that have "map_of language_map ext = Some None"
      by (simp add: map_extension_to_language_def Let_def split: option.splits if_splits)
    then show ?thesis by (rule language_map_None_excluded)
  qed
  from a b c show ?thesis by blast
qed

theorem map_extension_to_language_total_witness:
  "map_extension_to_language ''png'' = None
   \<and> map_extension_to_language ''xyz'' = Some ''Other''
   \<and> ''png'' \<in> set excluded_extensions
   \<and> ''xyz'' \<notin> set (map fst language_map)"
proof -
  have p: "''png'' \<in> set excluded_extensions" by (simp add: excluded_extensions_def)
  have x: "''xyz'' \<notin> set (map fst language_map)" by (simp add: language_map_def)
  from map_extension_to_language_total [of "''png''" "''png''"] p
  have "map_extension_to_language ''png'' = None" by blast
  moreover from map_extension_to_language_total [of "''xyz''" "''xyz''"] x
  have "map_extension_to_language ''xyz'' = Some ''Other''" by blast
  ultimately show ?thesis using p x by simp
qed

section \<open>Cache validity\<close>







section \<open>The normalizer\<close>

lemma set_set_column: "set (set_column c cols) = insert c (set cols)"
  by (auto simp: set_column_def)

lemma set_fold_set_column: "set (fold set_column cs cols) = set cs \<union> set cols"
  by (induction cs arbitrary: cols) (auto simp: set_set_column)

lemma fold_set_column_id: "set cs \<subseteq> set cols \<Longrightarrow> fold set_column cs cols = cols"
  by (induction cs arbitrary: cols) (auto simp: set_column_def)

lemma add_features_idem: "add_features (add_features r) = add_features r"
  by (simp add: add_features_def to_datetime_def Let_def)

lemma row_instant_add_features: "row_instant (add_features r) = row_instant r"
  by (simp add: add_features_def to_datetime_def row_instant_def Let_def)

lemma add_features_raw_inj:
  assumes "row_instant (add_features (r, None)) = row_instant (add_features (r', None))"
    and "inj_on (\<lambda>r. instant (timestamp r)) A" and "r \<in> A" and "r' \<in> A"
  shows "r = r'"
proof -
  from assms(1) have "row_instant (r, None) = row_instant (r', None)"
    by (simp only: row_instant_add_features)
  then have "instant (timestamp r) = instant (timestamp r')"
    by (simp add: row_instant_def)
  with assms(2-4) show ?thesis by (auto dest: inj_onD)
qed

lemma sorter_canonical:
  assumes "sorts_by_timestamp sort_values" and "inj_on row_instant (set xs)"
    and "mset ys = mset xs"
  shows "sort_values ys = sort_key row_instant xs"
proof -
  from assms(1) have "mset (sort_values ys) = mset ys"
    and s: "sorted (map row_instant (sort_values ys))"
    by (simp_all add: sorts_by_timestamp_def)
  with assms(3) have "mset xs = mset (sort_values ys)" by simp
  from sort_key_inj_key_eq [OF this assms(2) s] show ?thesis by simp
qed

lemma sorts_by_timestamp_stable_sort: "sorts_by_timestamp stable_sort"
  by (simp add: sorts_by_timestamp_def stable_sort_def)

lemma process_dataframe_nonempty:
  assumes "rs \<noteq> []"
  shows "process_dataframe sort_values (DataFrame rs) =
           Inr \<lparr>columns = raw_columns @ derived_columns,
                rows = sort_values (map (\<lambda>r. add_features (r, None)) rs)\<rparr>"
  using assms
  by (simp add: process_dataframe_def DataFrame_def df_empty_def raw_columns_def
      derived_columns_def set_column_def comp_def)

lemma process_dataframe_again:
  assumes "sorts_by_timestamp sort_values" and "xs \<noteq> []"
    and "\<forall>x\<in>set xs. add_features x = x"
    and "sort_values (sort_values xs) = sort_values xs"
  shows "process_dataframe sort_values
           \<lparr>columns = raw_columns @ derived_columns, rows = sort_values xs\<rparr> =
         Inr \<lparr>columns = raw_columns @ derived_columns, rows = sort_values xs\<rparr>"
proof -
  from assms(1) have m: "mset (sort_values xs) = mset xs"
    by (simp add: sorts_by_timestamp_def)
  with assms(2) have ne: "sort_values xs \<noteq> []" by auto
  from m have "set (sort_values xs) = set xs" by (rule mset_eq_setD)
  with assms(3) have "map add_features (sort_values xs) = sort_values xs"
    by (intro map_idI) auto
  moreover have "fold set_column derived_columns (raw_columns @ derived_columns)
      = raw_columns @ derived_columns"
    by (rule fold_set_column_id) simp
  ultimately show ?thesis
    using ne assms(4)
    by (simp add: process_dataframe_def df_empty_def raw_columns_def)
qed

text \<open>
  Claim C5, as the code has it. On the empty record collection the normalizer does not
  raise and returns the table it was given, unchanged: no rows and no columns at all, so
  none of the derived columns. Every empty table is returned as it is.
\<close>

theorem process_dataframe_empty:
  "process_dataframe sort_values (DataFrame []) = Inr (DataFrame [])
   \<and> rows (DataFrame []) = [] \<and> columns (DataFrame []) = []
   \<and> (df_empty df \<longrightarrow> process_dataframe sort_values df = Inr df)"
  by (simp add: process_dataframe_def DataFrame_def df_empty_def)

theorem process_dataframe_empty_witness:
  "df_empty (DataFrame []) \<and> process_dataframe stable_sort (DataFrame []) = Inr (DataFrame [])"
  using process_dataframe_empty [of stable_sort "DataFrame []"]
  by (simp add: df_empty_def DataFrame_def)

text \<open>
  The claim as stated fails: the table returned for the empty collection has no column,
  so it does not carry the derived column \<open>hour\<close> (nor any other).
\<close>

theorem process_dataframe_empty_counterexample:
  "process_dataframe stable_sort (DataFrame []) = Inr \<lparr>columns = [], rows = []\<rparr>
   \<and> ''hour'' \<notin> set (columns \<lparr>columns = [], rows = []\<rparr>)"
  by (simp add: process_dataframe_def DataFrame_def df_empty_def)

text \<open>
  Claim C6, as the code has it. For every record collection the normalizer returns a table
  whose rows are the records with their features, sorted ascending by timestamp. When no
  two different records share a timestamp, every permutation of the records yields the
  identical table, and the normalizer applied to its own output returns that output.
\<close>

theorem process_dataframe_sorted_order_independent:
  assumes "sorts_by_timestamp sort_values"
  shows "\<exists>df. process_dataframe sort_values (DataFrame rs) = Inr df
           \<and> sorted (map row_instant (rows df))
           \<and> mset (rows df) = mset (map (\<lambda>r. add_features (r, None)) rs)
           \<and> (inj_on (\<lambda>r. instant (timestamp r)) (set rs) \<longrightarrow>
                process_dataframe sort_values df = Inr df
                \<and> (\<forall>rs'. mset rs' = mset rs \<longrightarrow>
                      process_dataframe sort_values (DataFrame rs') = Inr df))"
proof (cases "rs = []")
  case True
  then show ?thesis
    by (simp add: process_dataframe_def DataFrame_def df_empty_def)
next
  case False
  define xs where "xs = map (\<lambda>r. add_features (r, None)) rs"
  define df where "df = \<lparr>columns = raw_columns @ derived_columns, rows = sort_values xs\<rparr>"
  have p: "process_dataframe sort_values (DataFrame rs) = Inr df"
    using process_dataframe_nonempty [OF False] by (simp add: df_def xs_def)
  from assms have s: "sorted (map row_instant (rows df))" and m: "mset (rows df) = mset xs"
    by (simp_all add: sorts_by_timestamp_def df_def)
  have rest: "process_dataframe sort_values df = Inr df
      \<and> (\<forall>rs'. mset rs' = mset rs \<longrightarrow> process_dataframe sort_values (DataFrame rs') = Inr df)"
    if inj: "inj_on (\<lambda>r. instant (timestamp r)) (set rs)"
  proof (intro conjI allI impI)
    have injx: "inj_on row_instant (set xs)"
    proof (rule inj_onI)
      fix x y assume "x \<in> set xs" "y \<in> set xs" and k: "row_instant x = row_instant y"
      then obtain r r' where r: "r \<in> set rs" "x = add_features (r, None)"
        and r': "r' \<in> set rs" "y = add_features (r', None)"
        by (auto simp: xs_def)
      from k r(2) r'(2) have "r = r'"
        by (intro add_features_raw_inj [OF _ inj r(1) r'(1)]) simp
      with r r' show "x = y" by simp
    qed
    have ne: "xs \<noteq> []" using False by (simp add: xs_def)
    have fixed: "\<forall>x\<in>set xs. add_features x = x"
      by (auto simp: xs_def add_features_idem)
    from assms have "mset (sort_values xs) = mset xs" by (simp add: sorts_by_timestamp_def)
    from sorter_canonical [OF assms injx this] sorter_canonical [OF assms injx refl]
    have "sort_values (sort_values xs) = sort_values xs" by simp
    from process_dataframe_again [OF assms ne fixed this]
    show "process_dataframe sort_values df = Inr df" by (simp add: df_def)
    fix rs' assume eq: "mset rs' = mset rs"
    with False have ne': "rs' \<noteq> []" by auto
    from eq have "mset (map (\<lambda>r. add_features (r, None)) rs') = mset xs"
      by (simp add: xs_def)
    from sorter_canonical [OF assms injx this] sorter_canonical [OF assms injx refl]
    have "sort_values (map (\<lambda>r. add_features (r, None)) rs') = sort_values xs" by simp
    then show "process_dataframe sort_values (DataFrame rs') = Inr df"
      using process_dataframe_nonempty [OF ne'] by (simp add: df_def)
  qed
  from p s m rest show ?thesis by (auto simp: xs_def)
qed

theorem process_dataframe_sorted_order_independent_witness:
  "sorts_by_timestamp stable_sort
   \<and> inj_on (\<lambda>r. instant (timestamp r)) (set [commit_a, commit_c])
   \<and> mset [commit_c, commit_a] = mset [commit_a, commit_c]
   \<and> process_dataframe stable_sort (DataFrame [commit_c, commit_a])
       = process_dataframe stable_sort (DataFrame [commit_a, commit_c])"
proof -
  have i: "inj_on (\<lambda>r. instant (timestamp r)) (set [commit_a, commit_c])"
    by (simp add: commit_a_def commit_c_def)
  have m: "mset [commit_c, commit_a] = mset [commit_a, commit_c]" by simp
  from process_dataframe_sorted_order_independent
    [OF sorts_by_timestamp_stable_sort, of "[commit_a, commit_c]"] i m
  have "process_dataframe stable_sort (DataFrame [commit_c, commit_a])
       = process_dataframe stable_sort (DataFrame [commit_a, commit_c])"
    by metis
  with sorts_by_timestamp_stable_sort i m show ?thesis by blast
qed

text \<open>
  The claim as stated fails: two different commits with the same timestamp come out in
  the order they went in, so swapping them in the input swaps them in the output.
\<close>

theorem process_dataframe_order_counterexample:
  "mset [commit_b, commit_a] = mset [commit_a, commit_b]
   \<and> process_dataframe stable_sort (DataFrame [commit_b, commit_a])
       \<noteq> process_dataframe stable_sort (DataFrame [commit_a, commit_b])"
  by (simp add: process_dataframe_def DataFrame_def df_empty_def raw_columns_def
      stable_sort_def add_features_def to_datetime_def row_instant_def
      commit_a_def commit_b_def Let_def)

section \<open>The repository enumerator\<close>

lemma filter_repositories_filter:
  "\<forall>r\<in>set rs. \<forall>e. probe r = Inl e \<longrightarrow> is_GithubException e \<Longrightarrow>
   filter_repositories rs repos = Inr (repos @ filter qualifies rs)"
  by (induction rs arbitrary: repos) (auto simp: qualifies_def split: sum.splits)

lemma length_py_slice_to: "0 \<le> stop \<Longrightarrow> int (length (py_slice_to stop xs)) \<le> stop"
  by (simp add: py_slice_to_def)

text \<open>
  Claim C8. Once the user and the repository list are obtained, the enumerator truncates
  the list with \<open>[:max_repositories]\<close> and then keeps exactly the repositories whose
  probe returns at least one commit of the target user; a repository whose probe raises a
  \<open>GithubException\<close> is left out and the repositories after it are still probed. The
  output is no longer than the cap \<open>max_repositories\<close>, a number of repositories.
\<close>

theorem fetch_repositories_filters:
  assumes "retry_on_failure quota get_user w = (Inr u, w')"
    and "get_repos u = Inr listed"
    and "\<forall>r\<in>set (py_slice_to (max_repositories cfg) listed).
           \<forall>e. probe r = Inl e \<longrightarrow> is_GithubException e"
  shows "fetch_repositories cfg quota get_user w
           = (Inr (filter qualifies (py_slice_to (max_repositories cfg) listed)), w')
       \<and> (0 \<le> max_repositories cfg \<longrightarrow>
            int (length (filter qualifies (py_slice_to (max_repositories cfg) listed)))
              \<le> max_repositories cfg)"
proof -
  from filter_repositories_filter [OF assms(3), of "[]"]
  have "filter_repositories (py_slice_to (max_repositories cfg) listed) []
          = Inr (filter qualifies (py_slice_to (max_repositories cfg) listed))"
    by simp
  with assms(1,2) have "fetch_repositories cfg quota get_user w
           = (Inr (filter qualifies (py_slice_to (max_repositories cfg) listed)), w')"
    by (simp add: fetch_repositories_def)
  moreover have "int (length (filter qualifies (py_slice_to (max_repositories cfg) listed)))
              \<le> max_repositories cfg" if "0 \<le> max_repositories cfg"
  proof -
    have "length (filter qualifies (py_slice_to (max_repositories cfg) listed))
            \<le> length (py_slice_to (max_repositories cfg) listed)"
      by (rule length_filter_le)
    with length_py_slice_to [OF that, of listed] show ?thesis by linarith
  qed
  ultimately show ?thesis by blast
qed

lemma retry_on_failure_user_octocat:
  "retry_on_failure quota_ok user_octocat world0 =
     (Inr \<lparr>get_repos = Inr [repo_denied, repo_active, repo_idle, repo_active]\<rparr>,
      \<lparr>calls = 1, probes = 0, trace = [Call]\<rparr>)"
  by (simp add: retry_on_failure_def RETRY_ATTEMPTS_def upt_rec user_octocat_def world0_def
      emit_def Let_def)

lemma probe_examples:
  "probe repo_denied = Inl (GithubException 404)"
  "probe repo_active = Inr [Inr a_commit]"
  "probe repo_idle = Inr []"
  by (simp_all add: probe_def sliced_def repo_denied_def repo_active_def repo_idle_def)

theorem fetch_repositories_filters_witness:
  "fetch_repositories cfg_three quota_ok user_octocat world0
     = (Inr [repo_active], \<lparr>calls = 1, probes = 0, trace = [Call]\<rparr>)
   \<and> py_slice_to (max_repositories cfg_three) [repo_denied, repo_active, repo_idle, repo_active]
     = [repo_denied, repo_active, repo_idle]
   \<and> 0 \<le> max_repositories cfg_three
   \<and> int (length [repo_active]) \<le> max_repositories cfg_three"
proof -
  have c: "0 \<le> max_repositories cfg_three" "int (length [repo_active]) \<le> max_repositories cfg_three"
    by (simp_all add: cfg_three_def cfg_default_def)
  have s: "py_slice_to (max_repositories cfg_three) [repo_denied, repo_active, repo_idle, repo_active]
     = [repo_denied, repo_active, repo_idle]"
    by (simp add: py_slice_to_def cfg_three_def cfg_default_def)
  have p: "\<forall>r\<in>set (py_slice_to (max_repositories cfg_three)
              [repo_denied, repo_active, repo_idle, repo_active]).
           \<forall>e. probe r = Inl e \<longrightarrow> is_GithubException e"
    unfolding s by (auto simp: probe_examples)
  have g: "get_repos \<lparr>get_repos = Inr [repo_denied, repo_active, repo_idle, repo_active]\<rparr>
             = Inr [repo_denied, repo_active, repo_idle, repo_active]"
    by simp
  have q: "filter qualifies [repo_denied, repo_active, repo_idle] = [repo_active]"
    by (simp add: qualifies_def probe_examples)
  from fetch_repositories_filters [OF retry_on_failure_user_octocat g p] s q c
  show ?thesis by simp
qed

section \<open>The orchestrator and the cache\<close>









lemma fetch_repositories_example:
  "fetch_repositories cfg_default quota_ok user_octocat world0
     = (Inr [repo_active, repo_active], \<lparr>calls = 1, probes = 0, trace = [Call]\<rparr>)"
  by (simp add: fetch_repositories_def retry_on_failure_user_octocat py_slice_to_def
      cfg_default_def probe_examples)

lemma fetch_commits_from_repo_example:
  "fetch_commits_from_repo cfg_default repo_active (fetch_listing repo_active i) = Inr [commit_a]"
  by (simp add: fetch_commits_from_repo_def sliced_def cfg_default_def repo_active_def
      List.map_filter_def extract_commit_def a_commit_def file_info_def get_file_extension_def
      to_lower_def commit_a_def Let_def)

lemma retry_on_failure_example:
  "retry_on_failure quota_ok
     (\<lambda>i. fetch_commits_from_repo cfg_default repo_active (fetch_listing repo_active i)) w
     = (Inr [commit_a], emit Call (w\<lparr>calls := Suc (calls w)\<rparr>))"
  by (simp add: retry_on_failure_def RETRY_ATTEMPTS_def upt_rec fetch_commits_from_repo_example
      Let_def)

lemma check_rate_limit_example:
  "check_rate_limit quota_ok w = (Inr (), emit RateLimitProbe (w\<lparr>probes := Suc (probes w)\<rparr>))"
  by (simp add: check_rate_limit_def quota_ok_def RATE_LIMIT_BUFFER_def Let_def)

lemma fetch_loop_example:
  "fetch_loop cfg_default quota_ok [repo_active, repo_active] []
     \<lparr>calls = 1, probes = 0, trace = [Call]\<rparr>
   = (Inr [commit_a, commit_a],
      \<lparr>calls = 3, probes = 2,
       trace = [Call, RateLimitProbe, Call, Sleep (1 / 10), RateLimitProbe, Call,
                Sleep (1 / 10)]\<rparr>)"
  by (simp add: check_rate_limit_example retry_on_failure_example emit_def sleep_def)


lemma fetch_fresh_calls:
  assumes "fetch_repositories cfg (env_quota E) (env_get_user E) w = (Inr repos, w1)"
    and "repos \<noteq> []"
    and "fetch_loop cfg (env_quota E) repos [] w1 = (Inr all_commits, w2)"
  shows "calls (snd (snd (fetch_fresh E cfg use_cache fs w))) = calls w2"
  using assms by (simp add: fetch_fresh_def save_json_def)

lemma is_cache_valid_example:
  "is_cache_valid iso_example 1 fs_no_data CACHE_METADATA_FILE 7 = Inr True"
  "is_cache_valid iso_example 1 fs_torn CACHE_METADATA_FILE 7 = Inr True"
  by (simp_all add: is_cache_valid_def load_json_def fs_no_data_def fs_torn_def fs_fresh_def
      iso_example_def py_fromisoformat_def now_minus_def timedelta_days_def)

text \<open>
  Claim C10, as the code has it. With caching in use and a valid metadata stamp, a raw
  data file that is missing or that loads to a false value (\<open>null\<close>, an empty collection,
  an empty string, zero, \<open>false\<close>) makes \<open>fetch_all_commits\<close> do exactly what a fresh fetch
  does; a cached result is produced only from a loaded value that is true. A raw data file
  that is not valid JSON makes \<open>fetch_all_commits\<close> raise the decoding error, with no
  fetch at all.
\<close>

theorem fetch_all_commits_falls_through:
  assumes "self_use_cache cfg use_cache"
    and "is_cache_valid (env_fromisoformat E) (env_now_check E) fs CACHE_METADATA_FILE
           (cache_days cfg) = Inr True"
  shows "(fs CACHE_FILE = Missing \<or> (\<exists>v. fs CACHE_FILE = Parsed v \<and> \<not> truthy v)
            \<longrightarrow> fetch_all_commits E cfg use_cache fs w = fetch_fresh E cfg use_cache fs w)
       \<and> (\<forall>v. fs CACHE_FILE = Parsed v \<and> truthy v
            \<longrightarrow> fetch_all_commits E cfg use_cache fs w
                = (case env_frame_of_json E v of
                     Inl e \<Rightarrow> (Inl e, fs, w)
                   | Inr df \<Rightarrow> (process_dataframe (env_sort_values E) df, fs, w)))
       \<and> (fs CACHE_FILE = Unparseable
            \<longrightarrow> fetch_all_commits E cfg use_cache fs w = (Inl JSONDecodeError, fs, w))"
  using assms by (auto simp: fetch_all_commits_def load_json_def)

theorem fetch_all_commits_falls_through_witness:
  "fetch_all_commits env_example cfg_default True fs_no_data world0
     = fetch_fresh env_example cfg_default True fs_no_data world0
   \<and> fs_no_data CACHE_FILE = Missing
   \<and> is_cache_valid iso_example 1 fs_no_data CACHE_METADATA_FILE 7 = Inr True"
proof -
  have u: "self_use_cache cfg_default True" by (simp add: self_use_cache_def cfg_default_def)
  have v: "is_cache_valid (env_fromisoformat env_example) (env_now_check env_example) fs_no_data
      CACHE_METADATA_FILE (cache_days cfg_default) = Inr True"
    by (simp add: env_example_def cfg_default_def is_cache_valid_example)
  have m: "fs_no_data CACHE_FILE = Missing" by (simp add: fs_no_data_def)
  from fetch_all_commits_falls_through [OF u v, of world0] m is_cache_valid_example(1)
  show ?thesis by simp
qed

text \<open>
  The claim as stated fails: with a valid metadata stamp and a raw data file that is not
  valid JSON, \<open>fetch_all_commits\<close> raises and performs no fetch, whereas a fresh fetch on
  the same input makes three remote invocations and returns a table.
\<close>

theorem fetch_all_commits_fall_through_counterexample:
  "is_cache_valid iso_example 1 fs_torn CACHE_METADATA_FILE 7 = Inr True
   \<and> fs_torn CACHE_FILE = Unparseable
   \<and> fetch_all_commits env_example cfg_default True fs_torn world0
       = (Inl JSONDecodeError, fs_torn, world0)
   \<and> calls (snd (snd (fetch_fresh env_example cfg_default True fs_torn world0))) = 3"
proof -
  have r: "fetch_repositories cfg_default (env_quota env_example) (env_get_user env_example)
      world0 = (Inr [repo_active, repo_active], \<lparr>calls = 1, probes = 0, trace = [Call]\<rparr>)"
    by (simp only: env_example_def env.simps fetch_repositories_example)
  have l: "fetch_loop cfg_default (env_quota env_example) [repo_active, repo_active] []
      \<lparr>calls = 1, probes = 0, trace = [Call]\<rparr>
    = (Inr [commit_a, commit_a],
      \<lparr>calls = 3, probes = 2,
       trace = [Call, RateLimitProbe, Call, Sleep (1 / 10), RateLimitProbe, Call,
                Sleep (1 / 10)]\<rparr>)"
    by (simp only: env_example_def env.simps fetch_loop_example)
  have "calls (snd (snd (fetch_fresh env_example cfg_default True fs_torn world0))) = 3"
    using fetch_fresh_calls [OF r _ l, of True fs_torn] by simp
  moreover have "fetch_all_commits env_example cfg_default True fs_torn world0
       = (Inl JSONDecodeError, fs_torn, world0)"
    by (simp add: fetch_all_commits_def self_use_cache_def cfg_default_def env_example_def
        is_cache_valid_example load_json_def fs_torn_def)
  ultimately show ?thesis
    by (simp add: is_cache_valid_example) (simp add: fs_torn_def)
qed

end
